theory Spec2Isabelle
  imports Complex_Main "HOL-Library.Extended_Nat"
begin

section \<open>Data model\<close>

text \<open>
  The module \<^verbatim>\<open>proj2/perceptron.py\<close> works on numpy arrays of floats. A float is
  modelled by a \<^typ>\<open>real\<close>: rounding, infinities and NaN are outside this model.
  A one-dimensional array is a list; a two-dimensional array carries its \<^verbatim>\<open>shape\<close>
  beside its rows, because the code reads the column count from \<^verbatim>\<open>samples.shape\<close>
  even when there is no row. Class labels are the numeric scalars of the label array.
\<close>

type_synonym vec = "real list"
type_synonym label = real

record narray =
  shape :: "nat \<times> nat"
  rows :: "vec list"

text \<open>Every numpy matrix is rectangular: as many rows as \<^verbatim>\<open>shape[0]\<close>, each of
  \<^verbatim>\<open>shape[1]\<close> entries.\<close>

definition wf_narray :: "narray \<Rightarrow> bool" where
  "wf_narray a =
     (length (rows a) = fst (shape a) \<and> list_all (\<lambda>r. length r = snd (shape a)) (rows a))"

text \<open>The exceptions the modelled code can raise.\<close>

datatype error = ValueError | IndexError | AssertionError | AttributeError
  | ZeroDivisionError

subsection \<open>The numpy operations used\<close>

definition np_mul :: "vec \<Rightarrow> vec \<Rightarrow> vec" where
  "np_mul a b = map2 (*) a b"

definition np_add :: "vec \<Rightarrow> vec \<Rightarrow> vec" where
  "np_add a b = map2 (+) a b"

definition np_sum :: "vec \<Rightarrow> real" where
  "np_sum a = sum_list a"

definition np_dot :: "vec \<Rightarrow> vec \<Rightarrow> real" where
  "np_dot a b = sum_list (map2 (*) a b)"

definition np_scale :: "real \<Rightarrow> vec \<Rightarrow> vec" where
  "np_scale c a = map (\<lambda>v. c * v) a"

definition np_ones :: "nat \<Rightarrow> vec" where
  "np_ones n = replicate n 1"

text \<open>\<^verbatim>\<open>x < inf\<close> for a tracked minimum that starts at \<^verbatim>\<open>np.inf\<close>: \<open>None\<close> is the
  infinity.\<close>

definition lt_inf :: "real \<Rightarrow> real option \<Rightarrow> bool" where
  "lt_inf x b = (case b of None \<Rightarrow> True | Some v \<Rightarrow> x < v)"

section \<open>The fixed-increment single-sample rule\<close>

text \<open>The inner \<^verbatim>\<open>for k, y in enumerate(samples)\<close> of \<^verbatim>\<open>fixed_increment\<close>: one
  pass over the samples, updating the weights at each sample whose net is not positive
  and collecting that sample as an error.\<close>

fun fi_pass :: "vec list \<Rightarrow> vec \<Rightarrow> vec list \<Rightarrow> vec \<times> vec list" where
  "fi_pass [] weights errors = (weights, errors)"
| "fi_pass (y # ys) weights errors =
     (let net = np_sum (np_mul weights y)
      in if net \<le> 0 then fi_pass ys (np_add weights y) (errors @ [y])
         else fi_pass ys weights errors)"

text \<open>The \<^verbatim>\<open>while True\<close> loop. The arguments are the loop's variables as they stand
  at the top of an iteration (\<open>trial\<close> before its increment); \<open>dist_fn\<close> is
  \<^verbatim>\<open>util.dist\<close>, which is not part of the module and is taken as a parameter. The
  loop returns the weights and the final trial counter (the one the code logs).\<close>

function fi_loop ::
  "(vec \<Rightarrow> vec \<Rightarrow> real) \<Rightarrow> real \<Rightarrow> vec list \<Rightarrow> int \<Rightarrow> vec \<Rightarrow> enat \<Rightarrow> real option \<Rightarrow> vec
     \<Rightarrow> vec \<times> int" where
  "fi_loop dist_fn theta samples trial weights best bestd bw =
     (let trial' = trial + 1;
          old_weights = weights;
          pass = fi_pass samples weights [];
          weights' = fst pass;
          errors = snd pass
      in if length errors = 0 then (weights', trial')
         else
           let best' = (if enat (length errors) < best then enat (length errors) else best);
               bw' = (if enat (length errors) < best then old_weights else bw)
           in if trial' > 100000 then (bw', trial')
              else
                let delta = dist_fn weights' old_weights;
                    bestd' = (if lt_inf delta bestd then Some delta else bestd)
                in if delta \<le> theta then (weights', trial')
                   else fi_loop dist_fn theta samples trial' weights' best' bestd' bw')"
  by pat_completeness auto
termination
  by (relation "measure (\<lambda>(dist_fn, theta, samples, trial, weights, best, bestd, bw).
        nat (100001 - trial))") auto

declare fi_loop.simps [simp del]

text \<open>The run of \<^verbatim>\<open>fixed_increment\<close>: the initialisation and the loop. It gives the
  returned weights with the trial counter at the exit; \<^verbatim>\<open>fixed_increment\<close> returns the
  weights. \<open>debug\<close> only switches the logging, which is not modelled.\<close>

definition fixed_increment_run ::
  "(vec \<Rightarrow> vec \<Rightarrow> real) \<Rightarrow> narray \<Rightarrow> real \<Rightarrow> bool \<Rightarrow> vec \<times> int" where
  "fixed_increment_run dist_fn samples theta debug =
     (let features = snd (shape samples);
          weights = np_ones features;
          trial = - 1;
          best = \<infinity>;
          bestd = None;
          bw = weights
      in fi_loop dist_fn theta (rows samples) trial weights best bestd bw)"

definition fixed_increment ::
  "(vec \<Rightarrow> vec \<Rightarrow> real) \<Rightarrow> narray \<Rightarrow> real \<Rightarrow> bool \<Rightarrow> vec" where
  "fixed_increment dist_fn samples theta debug =
     fst (fixed_increment_run dist_fn samples theta debug)"

text \<open>The trace of the rule when no stop condition fires: the weights at the top of
  trial \<open>k\<close> and the number of errors of trial \<open>k\<close>.\<close>

fun fi_weights_at :: "vec list \<Rightarrow> vec \<Rightarrow> nat \<Rightarrow> vec" where
  "fi_weights_at samples w0 0 = w0"
| "fi_weights_at samples w0 (Suc k) = fst (fi_pass samples (fi_weights_at samples w0 k) [])"

definition fi_errors_at :: "vec list \<Rightarrow> vec \<Rightarrow> nat \<Rightarrow> nat" where
  "fi_errors_at samples w0 k = length (snd (fi_pass samples (fi_weights_at samples w0 k) []))"

text \<open>\<open>fi_first_min E t m\<close>: among the trials \<open>0, \<dots>, t - 1\<close>, trial \<open>m\<close> is the first one
  with the lowest error count, that is the last trial whose count was strictly lower
  than every count before it.\<close>

definition fi_first_min :: "(nat \<Rightarrow> nat) \<Rightarrow> nat \<Rightarrow> nat \<Rightarrow> bool" where
  "fi_first_min E t m = (m < t \<and> (\<forall>i<t. E m \<le> E i) \<and> (\<forall>i<m. E m < E i))"

definition fi_best_inv :: "(nat \<Rightarrow> nat) \<Rightarrow> (nat \<Rightarrow> vec) \<Rightarrow> nat \<Rightarrow> enat \<Rightarrow> vec \<Rightarrow> bool" where
  "fi_best_inv E W t best bw =
     ((t = 0 \<and> best = \<infinity>) \<or> (\<exists>m. fi_first_min E t m \<and> best = enat (E m) \<and> bw = W m))"

section \<open>Batch relaxation with margin\<close>

definition np_sq :: "vec \<Rightarrow> vec" where
  "np_sq x = map (\<lambda>v. v ^ 2) x"

definition np_linalg_norm :: "vec \<Rightarrow> real" where
  "np_linalg_norm y = sqrt (sum_list (map (\<lambda>v. \<bar>v\<bar> ^ 2) y))"

text \<open>\<^verbatim>\<open>np.sum(vs, axis=0)\<close> for a non-empty list of vectors of \<open>features\<close> entries.\<close>

definition np_sum_axis0 :: "nat \<Rightarrow> vec list \<Rightarrow> vec" where
  "np_sum_axis0 features vs = foldl np_add (replicate features 0) vs"

definition criterion :: "vec \<Rightarrow> vec list \<Rightarrow> real \<Rightarrow> real" where
  "criterion weights errors margin =
     0.5 * np_sum (map (\<lambda>y. ((np_dot weights y - margin) / np_linalg_norm y) ^ 2) errors)"

text \<open>The inner \<^verbatim>\<open>for y in samples\<close> of \<^verbatim>\<open>batch_relaxation\<close>, which collects the samples
  whose net does not exceed the margin.\<close>

fun br_attempt :: "vec list \<Rightarrow> vec \<Rightarrow> real \<Rightarrow> vec list \<Rightarrow> vec list" where
  "br_attempt [] weights margin errors = errors"
| "br_attempt (y # ys) weights margin errors =
     (let net = np_sum (np_mul weights y)
      in if net \<le> margin then br_attempt ys weights margin (errors @ [y])
         else br_attempt ys weights margin errors)"

text \<open>The summand of the update for one error sample:
  \<^verbatim>\<open>x * (margin - np.dot(weights, x)) / np.sum(x ** 2)\<close>. The code does not guard the
  division. On an error sample of zero norm numpy divides to NaN (with a warning only)
  and the loop goes on with NaN weights, which no real number models; the quotient of
  the model is the one of the reals. What is proved below about the weights that batch
  relaxation returns is therefore stated for rows of non-zero norm, as all augmented
  rows are.\<close>

definition br_term :: "vec \<Rightarrow> real \<Rightarrow> vec \<Rightarrow> vec" where
  "br_term weights margin x =
     map (\<lambda>v. v * (margin - np_dot weights x) / np_sum (np_sq x)) x"

text \<open>How the loop of \<^verbatim>\<open>batch_relaxation\<close> was left: the break on an empty error list,
  the break on the trial cap and the break on a small update. \<open>NoSamples\<close> is the loop
  over \<^verbatim>\<open>cycle(range(0))\<close>, which has no iteration.\<close>

datatype br_exit = NoSamples | Converged | CapReached | SmallUpdate

text \<open>The body of \<^verbatim>\<open>for _ in cycle(range(n))\<close> with \<open>n > 0\<close>, an endless loop. The
  arguments are the loop's variables at the top of an iteration; \<open>approx\<close> is
  \<^verbatim>\<open>util.approx\<close>, a parameter as \<open>dist_fn\<close> is. The conjunction of the stop test is
  Python's short-circuit \<^verbatim>\<open>and\<close>.\<close>

function br_loop ::
  "(vec \<Rightarrow> vec \<Rightarrow> real) \<Rightarrow> (real \<Rightarrow> real \<Rightarrow> real \<Rightarrow> bool) \<Rightarrow> nat \<Rightarrow> vec list \<Rightarrow> real \<Rightarrow> real
     \<Rightarrow> int \<Rightarrow> vec \<Rightarrow> enat \<Rightarrow> real option \<Rightarrow> br_exit \<times> vec \<times> int" where
  "br_loop dist_fn approx features samples rate margin trial weights best bd =
     (let errors = br_attempt samples weights margin []
      in if length errors = 0 then (Converged, weights, trial)
         else
           let update = np_scale rate (np_sum_axis0 features (map (br_term weights margin) errors));
               old_weights = weights;
               weights' = np_add weights update
           in if trial > 100000 then (CapReached, weights', trial)
              else
                let best' = (if enat (length errors) < best then enat (length errors) else best);
                    delta = dist_fn old_weights weights';
                    bd' = (if lt_inf delta bd then Some delta else bd)
                in if approx delta 0 0.00001
                      \<and> approx (criterion old_weights errors margin) 0 0.00001
                   then (SmallUpdate, weights', trial)
                   else br_loop dist_fn approx features samples rate margin (trial + 1)
                          weights' best' bd')"
  by pat_completeness auto
termination
  by (relation "measure (\<lambda>(dist_fn, approx, features, samples, rate, margin, trial, weights,
        best, bd). nat (100001 - trial))") auto

declare br_loop.simps [simp del]

text \<open>The run of \<^verbatim>\<open>batch_relaxation\<close>: how the loop was left, the weights and the
  trial counter at that moment. The module's random generator is a state \<open>g\<close> threaded
  through the call: \<open>rand k g\<close> is \<^verbatim>\<open>np.random.rand(k, 1).reshape((k,))\<close>, the \<open>k\<close>
  draws with the generator's next state. An invalid rate raises before anything else is
  evaluated, so the generator is left as it was.\<close>

definition batch_relaxation_run ::
  "(vec \<Rightarrow> vec \<Rightarrow> real) \<Rightarrow> (real \<Rightarrow> real \<Rightarrow> real \<Rightarrow> bool) \<Rightarrow> (nat \<Rightarrow> 'g \<Rightarrow> vec \<times> 'g) \<Rightarrow> 'g
     \<Rightarrow> narray \<Rightarrow> real \<Rightarrow> real \<Rightarrow> real \<Rightarrow> bool \<Rightarrow> (error + br_exit \<times> vec \<times> int) \<times> 'g" where
  "batch_relaxation_run dist_fn approx rand g samples rate margin theta debug =
     (if \<not> (0 < rate \<and> rate < 2) then (Inl ValueError, g)
      else
        let n = fst (shape samples);
            features = snd (shape samples);
            drawn = rand features g;
            weights = fst drawn;
            trial = 0;
            best = \<infinity>;
            bd = None
        in if n = 0 then (Inr (NoSamples, weights, trial), snd drawn)
           else (Inr (br_loop dist_fn approx features (rows samples) rate margin trial weights
                        best bd), snd drawn))"

text \<open>\<^verbatim>\<open>batch_relaxation\<close> returns the weights, or raises on an invalid rate.\<close>

definition batch_relaxation ::
  "(vec \<Rightarrow> vec \<Rightarrow> real) \<Rightarrow> (real \<Rightarrow> real \<Rightarrow> real \<Rightarrow> bool) \<Rightarrow> (nat \<Rightarrow> 'g \<Rightarrow> vec \<times> 'g) \<Rightarrow> 'g
     \<Rightarrow> narray \<Rightarrow> real \<Rightarrow> real \<Rightarrow> real \<Rightarrow> bool \<Rightarrow> (error + vec) \<times> 'g" where
  "batch_relaxation dist_fn approx rand g samples rate margin theta debug =
     (case batch_relaxation_run dist_fn approx rand g samples rate margin theta debug of
        (Inl e, g') \<Rightarrow> (Inl e, g')
      | (Inr r, g') \<Rightarrow> (Inr (fst (snd r)), g'))"

section \<open>Feature normalisation\<close>

text \<open>The loop \<^verbatim>\<open>for i in range(n)\<close> of \<^verbatim>\<open>normalize_features\<close> over the result matrix,
  which starts as all ones. \<^verbatim>\<open>result[i][1:] = samples[i]\<close> keeps the first entry of the
  row; \<^verbatim>\<open>labels[i]\<close> raises when the label sequence is too short. The parameters
  \<^verbatim>\<open>weight\<close> and \<^verbatim>\<open>negative_weight\<close> are never read.\<close>

fun nf_loop :: "label \<Rightarrow> vec list \<Rightarrow> label list \<Rightarrow> nat list \<Rightarrow> vec list \<Rightarrow> error + vec list" where
  "nf_loop cls samples labels [] result = Inr result"
| "nf_loop cls samples labels (i # is) result =
     (let row = take 1 (result ! i) @ (samples ! i)
      in if length labels \<le> i then Inl IndexError
         else if labels ! i \<noteq> cls
           then nf_loop cls samples labels is (result[i := map (\<lambda>v. v * (- 1)) row])
           else nf_loop cls samples labels is (result[i := row]))"

definition normalize_features :: "label \<Rightarrow> narray \<Rightarrow> label list \<Rightarrow> error + narray" where
  "normalize_features cls samples labels =
     (let n = fst (shape samples);
          features = snd (shape samples);
          result = replicate n (np_ones (features + 1))
      in case nf_loop cls (rows samples) labels [0..<n] result of
           Inl e \<Rightarrow> Inl e
         | Inr r \<Rightarrow> Inr \<lparr>shape = (n, features + 1), rows = r\<rparr>)"

section \<open>The multiclass model\<close>

datatype Strategy = OneAgainstRest | OneAgainstOther

datatype TrainingRule = FixedIncrement | BatchRelaxation

text \<open>\<^verbatim>\<open>self.rule.method(normalized, debug=True)\<close>: the rule's function, called with its
  default parameters. Both rules run against the random generator's state; only batch
  relaxation draws from it.\<close>

definition rule_method ::
  "TrainingRule \<Rightarrow> (vec \<Rightarrow> vec \<Rightarrow> real) \<Rightarrow> (real \<Rightarrow> real \<Rightarrow> real \<Rightarrow> bool) \<Rightarrow> (nat \<Rightarrow> 'g \<Rightarrow> vec \<times> 'g)
     \<Rightarrow> 'g \<Rightarrow> narray \<Rightarrow> bool \<Rightarrow> (error + vec) \<times> 'g" where
  "rule_method r dist_fn approx rand g samples debug =
     (case r of
        FixedIncrement \<Rightarrow> (Inr (fixed_increment dist_fn samples 0.000003 debug), g)
      | BatchRelaxation \<Rightarrow> batch_relaxation dist_fn approx rand g samples 0.02 1.5 0.001 debug)"

text \<open>A Python dict keeps its keys in insertion order: assigning to a key that is
  present replaces the value in place, a new key goes last.\<close>

fun dict_set :: "('k \<times> 'v) list \<Rightarrow> 'k \<Rightarrow> 'v \<Rightarrow> ('k \<times> 'v) list" where
  "dict_set [] k v = [(k, v)]"
| "dict_set ((k', v') # kvs) k v =
     (if k' = k then (k, v) # kvs else (k', v') # dict_set kvs k v)"

text \<open>\<^verbatim>\<open>np.unique\<close>: the distinct values, sorted.\<close>

definition np_unique :: "label list \<Rightarrow> label list" where
  "np_unique labels = sort (remdups labels)"

text \<open>The object. The attribute \<^verbatim>\<open>weights\<close> is \<open>None\<close> when the object has no such
  attribute (what \<^verbatim>\<open>hasattr\<close> tests) and the dict otherwise. The learning-rate
  callback is never read by the modelled methods and is left out.\<close>

record perceptron =
  strategy :: Strategy
  rule :: TrainingRule
  weights :: "(label \<times> vec) list option"

definition Perceptron_init :: "TrainingRule \<Rightarrow> Strategy \<Rightarrow> perceptron" where
  "Perceptron_init r s = \<lparr>strategy = s, rule = r, weights = Some []\<rparr>"

text \<open>\<^verbatim>\<open>Perceptron.train\<close>: the loop over the distinct labels. An exception leaves the
  object as the iterations before it made it, so the result is the exception (if any)
  with the object and the generator's state.\<close>

fun train_loop ::
  "(vec \<Rightarrow> vec \<Rightarrow> real) \<Rightarrow> (real \<Rightarrow> real \<Rightarrow> real \<Rightarrow> bool) \<Rightarrow> (nat \<Rightarrow> 'g \<Rightarrow> vec \<times> 'g) \<Rightarrow> narray
     \<Rightarrow> label list \<Rightarrow> label list \<Rightarrow> perceptron \<Rightarrow> 'g \<Rightarrow> error option \<times> perceptron \<times> 'g" where
  "train_loop dist_fn approx rand samples labels [] self g = (None, self, g)"
| "train_loop dist_fn approx rand samples labels (l # ls) self g =
     (case normalize_features l samples labels of
        Inl e \<Rightarrow> (Some e, self, g)
      | Inr normalized \<Rightarrow>
          (case rule_method (rule self) dist_fn approx rand g normalized True of
             (Inl e, g') \<Rightarrow> (Some e, self, g')
           | (Inr w, g') \<Rightarrow>
               (case weights self of
                  None \<Rightarrow> (Some AttributeError, self, g')
                | Some d \<Rightarrow>
                    train_loop dist_fn approx rand samples labels ls
                      (self\<lparr>weights := Some (dict_set d l w)\<rparr>) g')))"

definition train ::
  "(vec \<Rightarrow> vec \<Rightarrow> real) \<Rightarrow> (real \<Rightarrow> real \<Rightarrow> real \<Rightarrow> bool) \<Rightarrow> (nat \<Rightarrow> 'g \<Rightarrow> vec \<times> 'g) \<Rightarrow> perceptron
     \<Rightarrow> 'g \<Rightarrow> narray \<Rightarrow> label list \<Rightarrow> error option \<times> perceptron \<times> 'g" where
  "train dist_fn approx rand self g samples labels =
     train_loop dist_fn approx rand samples labels (np_unique labels) self g"

subsection \<open>Classification\<close>

text \<open>Evaluating a list of results in order, stopping at the first exception.\<close>

fun sequence_sum :: "('e + 'a) list \<Rightarrow> 'e + 'a list" where
  "sequence_sum [] = Inr []"
| "sequence_sum (r # rs) =
     (case r of
        Inl e \<Rightarrow> Inl e
      | Inr v \<Rightarrow> (case sequence_sum rs of Inl e \<Rightarrow> Inl e | Inr vs \<Rightarrow> Inr (v # vs)))"

text \<open>One row \<^verbatim>\<open>[label, np.dot(a[1:], x) + a[0]]\<close> of the table of scores.
  \<^verbatim>\<open>np.dot\<close> raises on vectors of different lengths, \<^verbatim>\<open>a[0]\<close> on an empty one.\<close>

definition score_row :: "vec \<Rightarrow> label \<times> vec \<Rightarrow> error + label \<times> real" where
  "score_row x la =
     (let label = fst la; a = snd la
      in if length (drop 1 a) \<noteq> length x then Inl ValueError
         else if a = [] then Inl IndexError
         else Inr (label, np_dot (drop 1 a) x + a ! 0))"

text \<open>\<^verbatim>\<open>np.argmax\<close>: the first index that holds the maximum.\<close>

fun argmax_loop :: "real list \<Rightarrow> nat \<Rightarrow> real \<Rightarrow> nat \<Rightarrow> nat" where
  "argmax_loop [] i m best = best"
| "argmax_loop (v # vs) i m best =
     (if m < v then argmax_loop vs (i + 1) v i else argmax_loop vs (i + 1) m best)"

definition np_argmax :: "real list \<Rightarrow> error + nat" where
  "np_argmax vs = (case vs of [] \<Rightarrow> Inl ValueError | v # vs' \<Rightarrow> Inr (argmax_loop vs' 1 v 0))"

text \<open>The body of \<^verbatim>\<open>for x in data\<close> in \<^verbatim>\<open>iter_classify\<close>. With no stored weights
  \<^verbatim>\<open>values\<close> is the empty one-dimensional array, and \<^verbatim>\<open>values[:, 1]\<close> raises an
  IndexError. The result is the pair that \<^verbatim>\<open>debug\<close> yields; without \<^verbatim>\<open>debug\<close> its
  first component is yielded.\<close>

definition classify_one :: "(label \<times> vec) list \<Rightarrow> vec \<Rightarrow> error + label \<times> (label \<times> real) list" where
  "classify_one d x =
     (case sequence_sum (map (score_row x) d) of
        Inl e \<Rightarrow> Inl e
      | Inr values \<Rightarrow>
          if values = [] then Inl IndexError
          else (case np_argmax (map snd values) of
                  Inl e \<Rightarrow> Inl e
                | Inr best \<Rightarrow> Inr (fst (values ! best), values)))"

text \<open>\<^verbatim>\<open>iter_classify\<close>, consumed to its end. The assertion is the first statement of
  the generator's body.\<close>

definition iter_classify ::
  "perceptron \<Rightarrow> vec list \<Rightarrow> error + (label \<times> (label \<times> real) list) list" where
  "iter_classify self data =
     (case weights self of
        None \<Rightarrow> Inl AssertionError
      | Some d \<Rightarrow> sequence_sum (map (classify_one d) data))"

definition classify :: "perceptron \<Rightarrow> narray \<Rightarrow> error + label list" where
  "classify self data =
     (case iter_classify self (rows data) of Inl e \<Rightarrow> Inl e | Inr ys \<Rightarrow> Inr (map fst ys))"

text \<open>\<^verbatim>\<open>Perceptron.test\<close>. \<^verbatim>\<open>zip(labels, self.iter_classify(samples))\<close> takes a label
  first and only then advances the generator, so the generator is never started when
  there is no label, and it is advanced once per label while samples remain. The result
  is what the method prints: the number of correct answers, the total and the accuracy.
  The weights are read again for the report.\<close>

fun test_loop :: "(label \<times> vec) list \<Rightarrow> label list \<Rightarrow> vec list \<Rightarrow> nat \<Rightarrow> error + nat" where
  "test_loop d [] xs correct = Inr correct"
| "test_loop d (true # ls) [] correct = Inr correct"
| "test_loop d (true # ls) (x # xs) correct =
     (case classify_one d x of
        Inl e \<Rightarrow> Inl e
      | Inr (classf, values) \<Rightarrow>
          test_loop d ls xs (if true = classf then correct + 1 else correct))"

definition test :: "perceptron \<Rightarrow> narray \<Rightarrow> label list \<Rightarrow> error + nat \<times> nat \<times> real" where
  "test self samples labels =
     (case (if labels = [] then Inr 0
            else (case weights self of
                    None \<Rightarrow> Inl AssertionError
                  | Some d \<Rightarrow> test_loop d labels (rows samples) 0)) of
        Inl e \<Rightarrow> Inl e
      | Inr correct \<Rightarrow>
          let total = fst (shape samples)
          in if total = 0 then Inl ZeroDivisionError
             else if weights self = None then Inl AttributeError
             else Inr (correct, total, (real correct / real total) * 100))"

subsection \<open>Instances for the parameters\<close>

text \<open>The helpers \<^verbatim>\<open>dist\<close> and \<^verbatim>\<open>approx\<close> of \<^verbatim>\<open>util\<close> and the random generator are
  parameters of the model. The worked examples below run it with the Euclidean
  distance, the comparison of an absolute difference with the tolerance, and a
  generator that draws \<open>1/2\<close> every time and counts its draws.\<close>

definition euclid_dist :: "vec \<Rightarrow> vec \<Rightarrow> real" where
  "euclid_dist a b = sqrt (sum_list (map2 (\<lambda>x y. (x - y) ^ 2) a b))"

definition approx_abs :: "real \<Rightarrow> real \<Rightarrow> real \<Rightarrow> bool" where
  "approx_abs a b eps = (\<bar>a - b\<bar> < eps)"

definition rand_half :: "nat \<Rightarrow> nat \<Rightarrow> vec \<times> nat" where
  "rand_half k g = (replicate k (1 / 2), g + k)"

text \<open>A training matrix that the fixed-increment rule cannot separate: the points
  \<open>- 3\<close> and \<open>1\<close> of the target class around the point \<open>- 1\<close> of another class,
  augmented and sign-adjusted.\<close>

definition overlap_samples :: narray where
  "overlap_samples = \<lparr>shape = (3, 2), rows = [[1, - 3], [- 1, 1], [1, 1]]\<rparr>"

text \<open>A training matrix of one sample, which batch relaxation separates in one
  update.\<close>

definition single_sample :: narray where
  "single_sample = \<lparr>shape = (1, 2), rows = [[1, 0]]\<rparr>"

subsection \<open>Notions used to state the properties\<close>

text \<open>Row \<open>i\<close> of the normalised matrix as the specification words it: the sample with
  a 1 in front, negated as a whole when its label is not the target label.\<close>

definition nf_row :: "label \<Rightarrow> vec list \<Rightarrow> label list \<Rightarrow> nat \<Rightarrow> vec" where
  "nf_row cls samples labels i =
     (if labels ! i = cls then 1 # samples ! i else map uminus (1 # samples ! i))"

text \<open>The score of a sample \<open>x\<close> against a stored pair \<open>(label, weights)\<close> as the
  specification words it: \<open>weights[1:] \<cdot> x + weights[0]\<close>.\<close>

definition score :: "vec \<Rightarrow> label \<times> vec \<Rightarrow> real" where
  "score x la = np_dot (drop 1 (snd la)) x + snd la ! 0"

text \<open>\<open>first_max xs r\<close>: index \<open>r\<close> holds the maximum of \<open>xs\<close>, and no index before it
  does.\<close>

definition first_max :: "real list \<Rightarrow> nat \<Rightarrow> bool" where
  "first_max xs r = (r < length xs \<and> (\<forall>j<length xs. xs ! j \<le> xs ! r) \<and> (\<forall>j<r. xs ! j < xs ! r))"

text \<open>A sample of non-zero norm: the divisor \<^verbatim>\<open>np.sum(x ** 2)\<close> of the batch update is
  not zero.\<close>

definition nonzero_norm :: "vec \<Rightarrow> bool" where
  "nonzero_norm y = (np_sum (np_sq y) \<noteq> 0)"

text \<open>\<open>w\<close> is a weight vector that the rule \<open>r\<close> returns for the label \<open>l\<close> of a training
  set: the result of the rule's method on the matrix normalised for \<open>l\<close>, from some state
  of the random generator.\<close>

definition trained_on ::
  "(vec \<Rightarrow> vec \<Rightarrow> real) \<Rightarrow> (real \<Rightarrow> real \<Rightarrow> real \<Rightarrow> bool) \<Rightarrow> (nat \<Rightarrow> 'g \<Rightarrow> vec \<times> 'g)
     \<Rightarrow> TrainingRule \<Rightarrow> narray \<Rightarrow> label list \<Rightarrow> label \<Rightarrow> vec \<Rightarrow> bool" where
  "trained_on dist_fn approx rand r samples labels l w =
     (\<exists>normalized g1 g2. normalize_features l samples labels = Inr normalized
        \<and> rule_method r dist_fn approx rand g1 normalized True = (Inr w, g2))"

subsection \<open>Worked examples\<close>

text \<open>A weight mapping in which the labels 1 and 2 tie for the highest score on the
  sample \<open>[2]\<close>.\<close>

definition tie_weights :: "(label \<times> vec) list" where
  "tie_weights = [(1, [0, 1]), (2, [0, 1]), (3, [1, - 1])]"

text \<open>Two samples of one feature, and a matrix of the single sample \<open>[0]\<close>.\<close>

definition labelled_samples :: narray where
  "labelled_samples = \<lparr>shape = (2, 1), rows = [[5], [7]]\<rparr>"

definition one_point :: narray where
  "one_point = \<lparr>shape = (1, 1), rows = [[0]]\<rparr>"

section \<open>Properties\<close>

subsection \<open>The fixed-increment rule at the trial cap\<close>

lemma fi_first_min_unique:
  "fi_first_min E t m \<Longrightarrow> fi_first_min E t j \<Longrightarrow> m = j"
  unfolding fi_first_min_def
  by (metis linorder_neqE_nat not_less)

lemma fi_best_inv_step:
  assumes "fi_best_inv E W t best bw"
  shows "fi_best_inv E W (Suc t)
           (if enat (E t) < best then enat (E t) else best)
           (if enat (E t) < best then W t else bw)"
proof (cases "enat (E t) < best")
  case True
  have "fi_first_min E (Suc t) t"
    using assms True unfolding fi_best_inv_def fi_first_min_def
    by (auto simp: less_Suc_eq)
  then show ?thesis using True unfolding fi_best_inv_def by auto
next
  case False
  then obtain m where m: "fi_first_min E t m" "best = enat (E m)" "bw = W m"
    using assms unfolding fi_best_inv_def by auto
  have "fi_first_min E (Suc t) m"
    using m False unfolding fi_first_min_def by (auto simp: less_Suc_eq)
  then show ?thesis using False m unfolding fi_best_inv_def by auto
qed

lemma fi_loop_cap:
  fixes samples w0 dist_fn theta
  defines "W \<equiv> fi_weights_at samples w0"
    and "E \<equiv> fi_errors_at samples w0"
  assumes noconv: "\<And>k. k \<le> 100001 \<Longrightarrow> E k \<noteq> 0"
    and nodelta: "\<And>k. k \<le> 100000 \<Longrightarrow> \<not> dist_fn (W (Suc k)) (W k) \<le> theta"
    and j: "fi_first_min E 100002 j"
    and t: "t \<le> 100001"
    and inv: "fi_best_inv E W t best bw"
  shows "fi_loop dist_fn theta samples (int t - 1) (W t) best bestd bw = (W j, 100001)"
  using t inv
proof (induction "100001 - t" arbitrary: t best bestd bw)
  case 0
  then have t: "t = 100001" by simp
  have E: "length (snd (fi_pass samples (W t) [])) = E t"
    by (simp add: E_def W_def fi_errors_at_def)
  have ne: "E t \<noteq> 0" using noconv t by simp
  have "fi_best_inv E W (Suc t)
           (if enat (E t) < best then enat (E t) else best)
           (if enat (E t) < best then W t else bw)"
    by (rule fi_best_inv_step [OF "0.prems"(2)])
  then obtain m where m: "fi_first_min E 100002 m" "(if enat (E t) < best then W t else bw) = W m"
    unfolding fi_best_inv_def using t by auto
  have "m = j" using fi_first_min_unique [OF m(1) j] .
  then have res: "(if enat (E t) < best then W t else bw) = W j" using m(2) by simp
  have ne': "snd (fi_pass samples (W t) []) \<noteq> []" using ne E by auto
  show ?case
    using t res ne' E by (subst fi_loop.simps) (auto simp add: Let_def split: if_splits)
next
  case (Suc n)
  then have t: "t \<le> 100000" "n = 100001 - Suc t" "Suc t \<le> 100001" by simp_all
  have E: "length (snd (fi_pass samples (W t) [])) = E t"
    by (simp add: E_def W_def fi_errors_at_def)
  have Wn: "fst (fi_pass samples (W t) []) = W (Suc t)"
    by (simp add: W_def)
  have ne: "E t \<noteq> 0" using noconv t by simp
  have nd: "\<not> dist_fn (W (Suc t)) (W t) \<le> theta" using nodelta t by simp
  have inv': "fi_best_inv E W (Suc t)
           (if enat (E t) < best then enat (E t) else best)
           (if enat (E t) < best then W t else bw)"
    by (rule fi_best_inv_step [OF Suc.prems(2)])
  have "fi_loop dist_fn theta samples (int (Suc t) - 1) (W (Suc t))
           (if enat (E t) < best then enat (E t) else best)
           (if lt_inf (dist_fn (W (Suc t)) (W t)) bestd then Some (dist_fn (W (Suc t)) (W t)) else bestd)
           (if enat (E t) < best then W t else bw) = (W j, 100001)"
    by (rule Suc.hyps(1) [OF t(2) t(3) inv'])
  moreover have ne': "snd (fi_pass samples (W t) []) \<noteq> []" using ne E by auto
  ultimately show ?case
    using nd E Wn t(1) by (subst fi_loop.simps) (auto simp add: Let_def split: if_splits)
qed

lemma fixed_increment_run_cap:
  assumes "\<forall>k\<le>100001. fi_errors_at (rows samples) (np_ones (snd (shape samples))) k \<noteq> 0"
    and "\<forall>k\<le>100000. \<not> dist_fn (fi_weights_at (rows samples) (np_ones (snd (shape samples))) (Suc k))
                 (fi_weights_at (rows samples) (np_ones (snd (shape samples))) k) \<le> theta"
    and "fi_first_min (fi_errors_at (rows samples) (np_ones (snd (shape samples)))) 100002 j"
  shows "fixed_increment_run dist_fn samples theta debug =
           (fi_weights_at (rows samples) (np_ones (snd (shape samples))) j, 100001)"
proof -
  have "fi_loop dist_fn theta (rows samples) (int 0 - 1)
          (fi_weights_at (rows samples) (np_ones (snd (shape samples))) 0) \<infinity> None
          (np_ones (snd (shape samples)))
        = (fi_weights_at (rows samples) (np_ones (snd (shape samples))) j, 100001)"
    using assms by (intro fi_loop_cap) (auto simp: fi_best_inv_def)
  then show ?thesis by (simp add: fixed_increment_run_def)
qed


text \<open>
  C1. When no trial up to the cap has zero errors and no delta up to the cap is at or
  below the threshold, \<open>fixed_increment\<close> gives up in trial 100001 and returns the
  best candidate: the weights held at the top of trial \<open>j\<close>, the first trial with the
  lowest error count among the trials \<open>0, \<dots>, 100001\<close>. The current weights at that
  moment are those after the updates of trial 100001, \<open>fi_weights_at \<dots> 100002\<close>.
\<close>

theorem fixed_increment_cap_returns_best:
  assumes "\<forall>k\<le>100001. fi_errors_at (rows samples) (np_ones (snd (shape samples))) k \<noteq> 0"
    and "\<forall>k\<le>100000. \<not> dist_fn (fi_weights_at (rows samples) (np_ones (snd (shape samples))) (Suc k))
                 (fi_weights_at (rows samples) (np_ones (snd (shape samples))) k) \<le> theta"
    and "fi_first_min (fi_errors_at (rows samples) (np_ones (snd (shape samples)))) 100002 j"
  shows "fixed_increment dist_fn samples theta debug =
           fi_weights_at (rows samples) (np_ones (snd (shape samples))) j"
  using fixed_increment_run_cap [OF assms] by (simp add: fixed_increment_def)

text \<open>On \<open>overlap_samples\<close> the weights alternate between \<open>[1, 1]\<close> (three errors in
  the trial that follows) and \<open>[2, 0]\<close> (one error): the rule gives up and returns
  \<open>[2, 0]\<close>, while the current weights are \<open>[1, 1]\<close>.\<close>

lemma overlap_pass:
  "fi_pass [[1, - 3], [- 1, 1], [1, 1]] [1, 1] [] = ([2, 0], [[1, - 3], [- 1, 1], [1, 1]])"
  "fi_pass [[1, - 3], [- 1, 1], [1, 1]] [2, 0] [] = ([1, 1], [[- 1, 1]])"
  by (simp_all add: np_sum_def np_mul_def np_add_def)

lemma overlap_weights_at:
  "fi_weights_at [[1, - 3], [- 1, 1], [1, 1]] [1, 1] k = (if even k then [1, 1] else [2, 0])"
  by (induction k) (simp_all del: fi_pass.simps add: overlap_pass)

lemma overlap_errors_at:
  "fi_errors_at [[1, - 3], [- 1, 1], [1, 1]] [1, 1] k = (if even k then 3 else 1)"
  by (cases "even k") (simp_all del: fi_pass.simps add: fi_errors_at_def overlap_weights_at overlap_pass)

lemma overlap_dist: "euclid_dist [1, 1] [2, 0] = sqrt 2" "euclid_dist [2, 0] [1, 1] = sqrt 2"
  by (simp_all add: euclid_dist_def)

lemma sqrt2_gt: "\<not> sqrt 2 \<le> 3 / 1000000"
proof -
  have "1 \<le> sqrt 2" by simp
  then show ?thesis by linarith
qed

lemma overlap_ones: "np_ones (snd (shape overlap_samples)) = [1, 1]"
  by (simp add: overlap_samples_def np_ones_def numeral_2_eq_2)

lemma overlap_rows: "rows overlap_samples = [[1, - 3], [- 1, 1], [1, 1]]"
  by (simp add: overlap_samples_def)

lemma overlap_noconv:
  "\<forall>k\<le>100001. fi_errors_at (rows overlap_samples) (np_ones (snd (shape overlap_samples))) k \<noteq> 0"
  by (simp add: overlap_ones overlap_rows overlap_errors_at)

lemma overlap_nodelta:
  "\<forall>k\<le>100000.
     \<not> euclid_dist (fi_weights_at (rows overlap_samples) (np_ones (snd (shape overlap_samples))) (Suc k))
         (fi_weights_at (rows overlap_samples) (np_ones (snd (shape overlap_samples))) k) \<le> 0.000003"
  using sqrt2_gt
  by (simp del: fi_weights_at.simps add: overlap_ones overlap_rows overlap_weights_at overlap_dist)

lemma overlap_first_min:
  "fi_first_min (fi_errors_at (rows overlap_samples) (np_ones (snd (shape overlap_samples)))) 100002 1"
  by (simp add: overlap_ones overlap_rows overlap_errors_at fi_first_min_def)

theorem fixed_increment_cap_returns_best_witness:
  "fixed_increment euclid_dist overlap_samples 0.000003 True = [2, 0]
   \<and> fi_weights_at (rows overlap_samples) (np_ones (snd (shape overlap_samples))) 100002 = [1, 1]"
proof -
  have res: "fixed_increment euclid_dist overlap_samples 0.000003 True =
      fi_weights_at (rows overlap_samples) (np_ones (snd (shape overlap_samples))) 1"
    by (rule fixed_increment_cap_returns_best [OF overlap_noconv overlap_nodelta overlap_first_min])
  have w1: "fi_weights_at (rows overlap_samples) (np_ones (snd (shape overlap_samples))) 1 = [2, 0]"
    by (simp del: fi_weights_at.simps add: overlap_ones overlap_rows overlap_weights_at)
  have w2: "fi_weights_at (rows overlap_samples) (np_ones (snd (shape overlap_samples))) 100002 = [1, 1]"
    by (simp del: fi_weights_at.simps add: overlap_ones overlap_rows overlap_weights_at)
  show ?thesis using res w1 w2 by (simp only:)
qed

subsection \<open>Termination within the trial cap\<close>

lemma fi_loop_trial_bound:
  "trial \<le> 100000 \<Longrightarrow>
     trial < snd (fi_loop dist_fn theta samples trial w best bestd bw)
     \<and> snd (fi_loop dist_fn theta samples trial w best bestd bw) \<le> 100001"
proof (induction "nat (100000 - trial)" arbitrary: trial w best bestd bw)
  case 0
  then have "trial = 100000" by simp
  then show ?case by (subst (1 2) fi_loop.simps) (simp add: Let_def)
next
  case (Suc n)
  then have t: "trial + 1 \<le> 100000" "n = nat (100000 - (trial + 1))" by simp_all
  note IH = Suc.hyps(1) [OF t(2) t(1)]
  show ?case
    apply (subst (1 2) fi_loop.simps)
    using t(1) IH by (auto simp add: Let_def intro: less_trans [of trial "trial + 1"])
qed

lemma br_loop_trial_bound:
  "0 \<le> trial \<Longrightarrow> trial \<le> 100001 \<Longrightarrow>
     0 \<le> snd (snd (br_loop dist_fn approx features samples rate margin trial w best bd))
     \<and> snd (snd (br_loop dist_fn approx features samples rate margin trial w best bd)) \<le> 100001"
proof (induction "nat (100001 - trial)" arbitrary: trial w best bd)
  case 0
  then have "trial = 100001" by simp
  then show ?case by (subst (1 2) br_loop.simps) (simp add: Let_def)
next
  case (Suc n)
  then have t: "0 \<le> trial + 1" "trial + 1 \<le> 100001" "n = nat (100001 - (trial + 1))" by simp_all
  note IH = Suc.hyps(1) [OF t(3) t(1) t(2)]
  show ?case
    apply (subst (1 2) br_loop.simps)
    using Suc.prems IH by (auto simp add: Let_def)
qed


lemma replicate_two: "replicate 2 x = [x, x]"
  by (simp add: numeral_2_eq_2)

lemma single_sample_loop:
  "br_loop euclid_dist approx_abs 2 [[1, 0]] (3 / 2) (3 / 2) 0 [1 / 2, 1 / 2] \<infinity> None
     = (Converged, [2, 1 / 2], 1)"
proof -
  have sq: "sqrt (9 / 4) = 3 / 2"
    by (rule real_sqrt_unique) (simp_all add: power2_eq_square)
  have d: "euclid_dist [1 / 2, 1 / 2] [2, 1 / 2] = 3 / 2"
    using sq by (simp add: euclid_dist_def power2_eq_square)
  have e0: "br_attempt [[1, 0]] [1 / 2, 1 / 2] (3 / 2) [] = [[1, 0]]"
    by (simp add: np_sum_def np_mul_def)
  have e1: "br_attempt [[1, 0]] [2, 1 / 2] (3 / 2) [] = []"
    by (simp add: np_sum_def np_mul_def)
  have u: "np_add [1 / 2, 1 / 2]
             (np_scale (3 / 2) (np_sum_axis0 2 [br_term [1 / 2, 1 / 2] (3 / 2) [1, 0]]))
           = [2, 1 / 2]"
    by (simp add: np_add_def np_scale_def np_sum_axis0_def br_term_def np_dot_def np_sum_def
        np_sq_def replicate_two)
  have last: "\<And>best bd. br_loop euclid_dist approx_abs 2 [[1, 0]] (3 / 2) (3 / 2) 1 [2, 1 / 2] best bd
     = (Converged, [2, 1 / 2], 1)"
    by (subst br_loop.simps) (simp del: br_attempt.simps add: e1)
  show ?thesis
    by (subst br_loop.simps)
      (simp del: br_attempt.simps add: e0 u d last Let_def approx_abs_def lt_inf_def
        np_sum_def np_sq_def)
qed

lemma single_sample_run:
  "batch_relaxation_run euclid_dist approx_abs rand_half (0::nat) single_sample (3 / 2) (3 / 2)
          0.001 True = (Inr (Converged, [2, 1 / 2], 1), 2)"
  by (simp add: batch_relaxation_run_def single_sample_def rand_half_def single_sample_loop
      replicate_two)

text \<open>
  C8. Both training loops stop within the trial cap: the trial counter at the exit of
  \<open>fixed_increment\<close>, and of \<open>batch_relaxation\<close> called with a rate in \<open>(0, 2)\<close>, lies
  between 0 and 100001, so no loop runs more than 100002 passes. (That the calls return
  at all is the termination proof of \<open>fi_loop\<close> and \<open>br_loop\<close>, whose measure is the
  distance of the trial counter to the cap.)
\<close>

theorem training_trials_bounded:
  assumes "0 < rate" and "rate < 2"
  shows "0 \<le> snd (fixed_increment_run dist_fn samples theta debug)
       \<and> snd (fixed_increment_run dist_fn samples theta debug) \<le> 100001
       \<and> (\<exists>x w t. fst (batch_relaxation_run dist_fn approx rand g samples' rate margin theta' debug')
                     = Inr (x, w, t) \<and> 0 \<le> t \<and> t \<le> 100001)"
proof -
  have fi: "- 1 < snd (fixed_increment_run dist_fn samples theta debug)
       \<and> snd (fixed_increment_run dist_fn samples theta debug) \<le> 100001"
    unfolding fixed_increment_run_def Let_def by (rule fi_loop_trial_bound) simp
  have br: "\<exists>x w t. fst (batch_relaxation_run dist_fn approx rand g samples' rate margin theta' debug')
                     = Inr (x, w, t) \<and> 0 \<le> t \<and> t \<le> 100001"
  proof (cases "fst (shape samples') = 0")
    case True
    then show ?thesis using assms by (simp add: batch_relaxation_run_def Let_def)
  next
    case False
    obtain x w t where r: "br_loop dist_fn approx (snd (shape samples')) (rows samples') rate margin 0
        (fst (rand (snd (shape samples')) g)) \<infinity> None = (x, w, t)"
      by (metis prod_cases3)
    have "0 \<le> t \<and> t \<le> 100001"
      using br_loop_trial_bound [of 0 dist_fn approx "snd (shape samples')" "rows samples'" rate
          margin "fst (rand (snd (shape samples')) g)" \<infinity> None] r by simp
    then show ?thesis using assms False r by (simp add: batch_relaxation_run_def Let_def)
  qed
  show ?thesis using fi br by simp
qed

text \<open>The cap is reached: on \<open>overlap_samples\<close> the fixed-increment rule stops with the
  trial counter at 100001.\<close>

theorem training_trials_bounded_witness:
  "(0::real) < 3 / 2 \<and> (3 / 2 :: real) < 2
   \<and> snd (fixed_increment_run euclid_dist overlap_samples 0.000003 True) = 100001
   \<and> fst (batch_relaxation_run euclid_dist approx_abs rand_half (0::nat) single_sample (3 / 2) (3 / 2)
            0.001 True) = Inr (Converged, [2, 1 / 2], 1)"
proof -
  have fi: "snd (fixed_increment_run euclid_dist overlap_samples 0.000003 True) = 100001"
    using fixed_increment_run_cap [OF overlap_noconv overlap_nodelta overlap_first_min, of True]
    by simp
  have a: "(0::real) < 3 / 2" and b: "(3 / 2 :: real) < 2" by simp_all
  note th = training_trials_bounded [OF a b, where dist_fn = euclid_dist
      and samples = overlap_samples and theta = "0.000003" and debug = True
      and approx = approx_abs and rand = rand_half and g = "0::nat"
      and samples' = single_sample and margin = "3 / 2" and theta' = "0.001" and debug' = True]
  show ?thesis using th fi single_sample_run by simp
qed

subsection \<open>Batch relaxation\<close>




text \<open>
  C3. A rate outside \<open>(0, 2)\<close> makes \<open>batch_relaxation\<close> raise the ValueError at once:
  whatever the samples, nothing is drawn for the weight vector, and the random
  generator is in the state it had before the call.
\<close>

theorem batch_relaxation_invalid_rate:
  assumes "rate \<le> 0 \<or> 2 \<le> rate"
  shows "batch_relaxation dist_fn approx rand g samples rate margin theta debug = (Inl ValueError, g)"
  using assms by (auto simp add: batch_relaxation_def batch_relaxation_run_def)

text \<open>With the rates 0 and 2 the generator stays at 0; with the rate \<open>3/2\<close> the same
  call draws the two weights.\<close>

theorem batch_relaxation_invalid_rate_witness:
  "batch_relaxation euclid_dist approx_abs rand_half (0::nat) single_sample 0 (3 / 2) 0.001 True
     = (Inl ValueError, 0)
   \<and> batch_relaxation euclid_dist approx_abs rand_half (0::nat) single_sample 2 (3 / 2) 0.001 True
     = (Inl ValueError, 0)
   \<and> snd (batch_relaxation euclid_dist approx_abs rand_half (0::nat) single_sample (3 / 2) (3 / 2) 0.001 True) = 2"
proof -
  have a: "(0::real) \<le> 0 \<or> (2::real) \<le> 0" by simp
  have b: "(2::real) \<le> 0 \<or> (2::real) \<le> 2" by simp
  note r = single_sample_run
  show ?thesis
    using batch_relaxation_invalid_rate [OF a, of euclid_dist approx_abs rand_half "0::nat" single_sample "3 / 2" "0.001" True]
      batch_relaxation_invalid_rate [OF b, of euclid_dist approx_abs rand_half "0::nat" single_sample "3 / 2" "0.001" True]
      r
    by (simp add: batch_relaxation_def)
qed



text \<open>The weights batch relaxation returns depend on what the generator draws.\<close>

lemma batch_relaxation_depends_on_generator:
  "fst (batch_relaxation dist_fn approx (\<lambda>k g. (replicate k g, g)) (1 / 4)
          \<lparr>shape = (0, 1), rows = []\<rparr> 0.02 1.5 0.001 True)
   \<noteq> fst (batch_relaxation dist_fn approx (\<lambda>k g. (replicate k g, g)) (3 / 4)
          \<lparr>shape = (0, 1), rows = []\<rparr> 0.02 1.5 0.001 True)"
  by (simp add: batch_relaxation_def batch_relaxation_run_def)

subsection \<open>Feature normalisation\<close>

lemma nf_loop_spec:
  assumes "distinct js"
    and "\<forall>j\<in>set js. j < length result \<and> j < length labels \<and> take 1 (result ! j) = [1]"
  shows "\<exists>r. nf_loop cls samples labels js result = Inr r \<and> length r = length result
           \<and> (\<forall>i<length result.
                 r ! i = (if i \<in> set js then nf_row cls samples labels i else result ! i))"
  using assms
proof (induction js arbitrary: result)
  case Nil
  then show ?case by simp
next
  case (Cons j js)
  define row where "row = nf_row cls samples labels j"
  have j: "j < length result" "j < length labels" "take 1 (result ! j) = [1]" "j \<notin> set js"
    using Cons.prems by auto
  have step: "nf_loop cls samples labels (j # js) result
                = nf_loop cls samples labels js (result[j := row])"
    using j by (simp add: row_def nf_row_def Let_def)
  have pre: "\<forall>k\<in>set js. k < length (result[j := row]) \<and> k < length labels
               \<and> take 1 (result[j := row] ! k) = [1]"
  proof
    fix k assume k: "k \<in> set js"
    then have "k \<noteq> j" using j(4) by auto
    then have "result[j := row] ! k = result ! k" by simp
    then show "k < length (result[j := row]) \<and> k < length labels
               \<and> take 1 (result[j := row] ! k) = [1]"
      using Cons.prems(2) k by simp
  qed
  have d: "distinct js" using Cons.prems by simp
  obtain r where r: "nf_loop cls samples labels js (result[j := row]) = Inr r"
      "length r = length (result[j := row])"
      "\<forall>i<length (result[j := row]).
         r ! i = (if i \<in> set js then nf_row cls samples labels i else result[j := row] ! i)"
    using Cons.IH [OF d pre] by blast
  have "\<forall>i<length result.
          r ! i = (if i \<in> set (j # js) then nf_row cls samples labels i else result ! i)"
    using r(3) j by (auto simp add: row_def nth_list_update)
  then show ?case using step r(1,2) by simp
qed

text \<open>
  C5. For a target label, an \<open>n \<times> d\<close> sample matrix and \<open>n\<close> labels,
  \<open>normalize_features\<close> returns a matrix of \<open>n\<close> rows of \<open>d + 1\<close> entries, in the order
  of the input: row \<open>i\<close> is the sample with a 1 in front when \<open>labels[i]\<close> is the target
  label, and that whole vector negated when it is not; so every row starts with 1 or
  \<open>- 1\<close>.
\<close>

theorem normalize_features_rows:
  assumes "wf_narray samples" and "length labels = fst (shape samples)"
  shows "\<exists>r. normalize_features cls samples labels = Inr r
           \<and> shape r = (fst (shape samples), snd (shape samples) + 1)
           \<and> length (rows r) = fst (shape samples)
           \<and> (\<forall>i<fst (shape samples).
                 rows r ! i = (if labels ! i = cls then 1 # rows samples ! i
                               else map uminus (1 # rows samples ! i))
                 \<and> length (rows r ! i) = snd (shape samples) + 1
                 \<and> (hd (rows r ! i) = 1 \<or> hd (rows r ! i) = - 1))"
proof -
  let ?n = "fst (shape samples)"
  let ?init = "replicate ?n (np_ones (snd (shape samples) + 1))"
  have pre: "\<forall>j\<in>set [0..<?n]. j < length ?init \<and> j < length labels \<and> take 1 (?init ! j) = [1]"
    using assms(2) by (simp add: np_ones_def)
  obtain r where r: "nf_loop cls (rows samples) labels [0..<?n] ?init = Inr r"
      "length r = length ?init"
      "\<forall>i<length ?init. r ! i = (if i \<in> set [0..<?n] then nf_row cls (rows samples) labels i
                                    else ?init ! i)"
    using nf_loop_spec [OF distinct_upt pre] by blast
  have len: "\<forall>i<?n. length (rows samples ! i) = snd (shape samples)"
    using assms(1) by (simp add: wf_narray_def list_all_length)
  have "normalize_features cls samples labels
          = Inr \<lparr>shape = (?n, snd (shape samples) + 1), rows = r\<rparr>"
    using r(1) by (simp add: normalize_features_def Let_def)
  moreover have "\<forall>i<?n. r ! i = (if labels ! i = cls then 1 # rows samples ! i
                               else map uminus (1 # rows samples ! i))"
    using r(3) by (simp add: nf_row_def)
  ultimately show ?thesis using r(2) len by auto
qed

theorem normalize_features_rows_witness:
  "\<exists>r. normalize_features 1 labelled_samples [1, 2] = Inr r
       \<and> shape r = (2, 2) \<and> length (rows r) = 2
       \<and> rows r ! 0 = [1, 5] \<and> rows r ! 1 = [- 1, - 7]"
proof -
  have wf: "wf_narray labelled_samples" by (simp add: wf_narray_def labelled_samples_def)
  have len: "length [1, 2 :: real] = fst (shape labelled_samples)"
    by (simp add: labelled_samples_def)
  show ?thesis
    using normalize_features_rows [OF wf len, of 1]
    by (auto simp add: labelled_samples_def)
qed

lemma normalize_features_labelled:
  "normalize_features 1 labelled_samples [1, 2]
     = Inr \<lparr>shape = (2, 2), rows = [[1, 5], [- 1, - 7]]\<rparr>"
  by (simp add: normalize_features_def labelled_samples_def np_ones_def numeral_2_eq_2 Let_def)

text \<open>Every row that \<open>normalize_features\<close> returns starts with 1 or \<open>- 1\<close> and so has
  non-zero norm: the matrices that training hands to batch relaxation are of the kind
  the separation property above is stated for.\<close>

lemma sum_sq_nonneg: "0 \<le> sum_list (map (\<lambda>v. v ^ 2) (x :: real list))"
  by (induction x) simp_all

lemma nonzero_norm_augmented:
  "nonzero_norm (1 # x)" "nonzero_norm (map uminus (1 # x))"
proof -
  have "0 < 1 + sum_list (map (\<lambda>v. v ^ 2) x)"
    using sum_sq_nonneg [of x] by linarith
  then show "nonzero_norm (1 # x)" "nonzero_norm (map uminus (1 # x))"
    by (simp_all add: nonzero_norm_def np_sum_def np_sq_def comp_def)
qed

lemma normalize_features_nonzero_norm:
  assumes "normalize_features cls samples labels = Inr r"
    and "length labels = fst (shape samples)"
  shows "list_all nonzero_norm (rows r)"
proof -
  let ?n = "fst (shape samples)"
  let ?init = "replicate ?n (np_ones (snd (shape samples) + 1))"
  have pre: "\<forall>j\<in>set [0..<?n]. j < length ?init \<and> j < length labels \<and> take 1 (?init ! j) = [1]"
    using assms(2) by (simp add: np_ones_def)
  obtain r' where r': "nf_loop cls (rows samples) labels [0..<?n] ?init = Inr r'"
      "length r' = length ?init"
      "\<forall>i<length ?init. r' ! i = (if i \<in> set [0..<?n] then nf_row cls (rows samples) labels i
                                    else ?init ! i)"
    using nf_loop_spec [OF distinct_upt pre] by blast
  have "rows r = r'"
    using assms(1) r'(1) by (auto simp add: normalize_features_def Let_def)
  moreover have "\<forall>i<length r'. nonzero_norm (r' ! i)"
    using r'(2,3) by (simp add: nf_row_def nonzero_norm_augmented del: list.map)
  ultimately show ?thesis by (simp add: list_all_length)
qed

subsection \<open>Classification\<close>

lemma argmax_loop_first_max:
  assumes "first_max pre best" and "m = pre ! best" and "i = length pre"
  shows "first_max (pre @ vs) (argmax_loop vs i m best)"
  using assms
proof (induction vs arbitrary: pre best m i)
  case Nil
  then show ?case by simp
next
  case (Cons v vs)
  show ?case
  proof (cases "m < v")
    case True
    have "first_max (pre @ [v]) i"
      using Cons.prems True unfolding first_max_def
      by (auto simp add: nth_append less_Suc_eq intro: order_le_less_trans less_imp_le)
    then have "first_max ((pre @ [v]) @ vs) (argmax_loop vs (i + 1) v i)"
      by (rule Cons.IH) (simp_all add: Cons.prems)
    then show ?thesis using True by simp
  next
    case False
    have "first_max (pre @ [v]) best"
      using Cons.prems False unfolding first_max_def
      by (auto simp add: nth_append less_Suc_eq)
    moreover have "best < length pre"
      using Cons.prems(1) by (simp add: first_max_def)
    ultimately have "first_max ((pre @ [v]) @ vs) (argmax_loop vs (i + 1) m best)"
      by (intro Cons.IH) (simp_all add: Cons.prems nth_append)
    then show ?thesis using False by simp
  qed
qed

lemma np_argmax_first_max:
  "vs \<noteq> [] \<Longrightarrow> \<exists>r. np_argmax vs = Inr r \<and> first_max vs r"
proof (cases vs)
  case Nil
  assume "vs \<noteq> []" with Nil show ?thesis by simp
next
  case (Cons v vs')
  have "first_max [v] 0" by (simp add: first_max_def)
  then have "first_max ([v] @ vs') (argmax_loop vs' 1 v 0)"
    by (rule argmax_loop_first_max) simp_all
  then show ?thesis using Cons by (simp add: np_argmax_def)
qed

lemma sequence_sum_scores:
  "list_all (\<lambda>la. length (snd la) = length x + 1) d \<Longrightarrow>
     sequence_sum (map (score_row x) d) = Inr (map (\<lambda>la. (fst la, score x la)) d)"
  by (induction d) (auto simp add: score_row_def score_def Let_def)

text \<open>
  C6. With a non-empty mapping whose weight vectors have one entry more than the
  sample \<open>x\<close>, classification builds the table of the scores
  \<open>weights[1:] \<cdot> x + weights[0]\<close> of all stored pairs and returns the label of the first
  pair, in the mapping's order, whose score is the maximum.
\<close>

theorem classify_first_max_score:
  assumes "d \<noteq> []"
    and "list_all (\<lambda>la. length (snd la) = length x + 1) d"
  shows "\<exists>i<length d.
           classify_one d x = Inr (fst (d ! i), map (\<lambda>la. (fst la, score x la)) d)
           \<and> (\<forall>j<length d. score x (d ! j) \<le> score x (d ! i))
           \<and> (\<forall>j<i. score x (d ! j) < score x (d ! i))
           \<and> (weights self = Some d \<longrightarrow>
                classify self \<lparr>shape = (1, length x), rows = [x]\<rparr> = Inr [fst (d ! i)])"
proof -
  let ?table = "map (\<lambda>la. (fst la, score x la)) d"
  have sv: "map snd ?table = map (score x) d" by (simp add: comp_def)
  have vs: "map (score x) d \<noteq> []" using assms(1) by simp
  obtain r where r: "np_argmax (map (score x) d) = Inr r" "first_max (map (score x) d) r"
    using np_argmax_first_max [OF vs] by blast
  have rl: "r < length d" using r(2) by (simp add: first_max_def)
  have one: "classify_one d x = Inr (fst (d ! r), ?table)"
    using assms(1) r(1) rl
    by (simp add: classify_one_def sequence_sum_scores [OF assms(2)] sv del: map_map)
  have mx: "\<forall>j<length d. score x (d ! j) \<le> score x (d ! r)"
    using r(2) rl by (auto simp add: first_max_def)
  have fst: "\<forall>j<r. score x (d ! j) < score x (d ! r)"
    using r(2) rl by (auto simp add: first_max_def)
  have cl: "weights self = Some d \<longrightarrow>
              classify self \<lparr>shape = (1, length x), rows = [x]\<rparr> = Inr [fst (d ! r)]"
    using one by (simp add: classify_def iter_classify_def)
  show ?thesis using rl one mx fst cl by blast
qed

text \<open>On \<open>tie_weights\<close> the labels 1 and 2 both score 2: label 1, the first, is
  returned.\<close>

theorem classify_first_max_score_witness:
  "classify_one tie_weights [2] = Inr (1, [(1, 2), (2, 2), (3, - 1)])
   \<and> classify \<lparr>strategy = OneAgainstRest, rule = FixedIncrement, weights = Some tie_weights\<rparr>
        \<lparr>shape = (1, 1), rows = [[2]]\<rparr> = Inr [1]"
proof -
  let ?self = "\<lparr>strategy = OneAgainstRest, rule = FixedIncrement, weights = Some tie_weights\<rparr>"
  have ne: "tie_weights \<noteq> []" by (simp add: tie_weights_def)
  have len: "list_all (\<lambda>la. length (snd la) = length [2::real] + 1) tie_weights"
    by (simp add: tie_weights_def)
  have s: "score [2] (tie_weights ! 0) = 2" "score [2] (tie_weights ! 1) = 2"
    "score [2] (tie_weights ! 2) = - 1"
    by (simp_all add: tie_weights_def score_def np_dot_def)
  obtain i where i: "i < length tie_weights"
    "classify_one tie_weights [2]
       = Inr (fst (tie_weights ! i), map (\<lambda>la. (fst la, score [2] la)) tie_weights)"
    "\<forall>j<length tie_weights. score [2] (tie_weights ! j) \<le> score [2] (tie_weights ! i)"
    "\<forall>j<i. score [2] (tie_weights ! j) < score [2] (tie_weights ! i)"
    "weights ?self = Some tie_weights \<longrightarrow>
       classify ?self \<lparr>shape = (1, length [2::real]), rows = [[2]]\<rparr> = Inr [fst (tie_weights ! i)]"
    using classify_first_max_score [OF ne len, of ?self] by blast
  have l3: "length tie_weights = 3" by (simp add: tie_weights_def)
  have "i = 0 \<or> i = 1 \<or> i = 2" using i(1) l3 by auto
  then have i0: "i = 0"
  proof (elim disjE)
    assume "i = 1"
    then have "score [2] (tie_weights ! 0) < score [2] (tie_weights ! 1)" using i(4) by simp
    then show ?thesis using s by simp
  next
    assume "i = 2"
    then have "score [2] (tie_weights ! 0) \<le> score [2] (tie_weights ! 2)" using i(3) l3 by simp
    then show ?thesis using s by simp
  qed simp
  have m: "map (\<lambda>la. (fst la, score [2] la)) tie_weights = [(1, 2), (2, 2), (3, - 1)]"
    by (simp add: tie_weights_def score_def np_dot_def)
  have f: "fst (tie_weights ! 0) = 1" by (simp add: tie_weights_def)
  show ?thesis using i(2) i(5) i0 m f by simp
qed

text \<open>
  C2. The assertion of \<open>iter_classify\<close> tests that the attribute \<^verbatim>\<open>weights\<close> exists,
  which \<^verbatim>\<open>__init__\<close> guarantees, so it never reports an untrained model. Classifying
  one sample with a freshly constructed model fails later, with the IndexError of
  \<^verbatim>\<open>values[:, 1]\<close> on the empty table; \<open>test\<close> does the same when it has a label, and
  returns normally when it has none; \<open>classify\<close> on no sample returns the empty
  sequence.
\<close>

theorem classify_untrained_raises_index_error:
  "classify (Perceptron_init FixedIncrement OneAgainstRest) one_point = Inl IndexError
   \<and> test (Perceptron_init FixedIncrement OneAgainstRest) one_point [1] = Inl IndexError
   \<and> test (Perceptron_init FixedIncrement OneAgainstRest) one_point [] = Inr (0, 1, 0)
   \<and> classify (Perceptron_init FixedIncrement OneAgainstRest) \<lparr>shape = (0, 1), rows = []\<rparr> = Inr []"
  by (simp add: classify_def iter_classify_def classify_one_def test_def Perceptron_init_def
      one_point_def)

subsection \<open>Training fills the mapping\<close>

lemma dict_set_keys:
  "map fst (dict_set d k v) = (if k \<in> set (map fst d) then map fst d else map fst d @ [k])"
proof (induction d)
  case Nil
  then show ?case by simp
next
  case (Cons a d)
  obtain k' v' where a: "a = (k', v')" by (cases a)
  show ?case
  proof (cases "k' = k")
    case True
    then show ?thesis using a by simp
  next
    case False
    then show ?thesis using a Cons.IH by (cases "k \<in> set (map fst d)") simp_all
  qed
qed

lemma train_loop_keys:
  assumes "train_loop dist_fn approx rand samples labels ls self g = (None, self', g')"
    and "weights self = Some d"
    and "distinct ls"
  shows "\<exists>d'. weights self' = Some d'
           \<and> map fst d' = map fst d @ filter (\<lambda>l. l \<notin> set (map fst d)) ls"
  using assms
proof (induction ls arbitrary: self g d)
  case Nil
  then show ?case by simp
next
  case (Cons l ls)
  obtain normalized where n: "normalize_features l samples labels = Inr normalized"
    using Cons.prems(1) by (auto split: sum.splits)
  obtain w g1 where m: "rule_method (rule self) dist_fn approx rand g normalized True = (Inr w, g1)"
    using Cons.prems(1) n by (auto split: sum.splits prod.splits)
  let ?self1 = "self\<lparr>weights := Some (dict_set d l w)\<rparr>"
  have step: "train_loop dist_fn approx rand samples labels ls ?self1 g1 = (None, self', g')"
    using Cons.prems(1,2) n m by simp
  have w1: "weights ?self1 = Some (dict_set d l w)" by simp
  have dl: "distinct ls" "l \<notin> set ls" using Cons.prems(3) by simp_all
  obtain d' where d': "weights self' = Some d'"
      "map fst d' = map fst (dict_set d l w)
                      @ filter (\<lambda>k. k \<notin> set (map fst (dict_set d l w))) ls"
    using Cons.IH [OF step w1 dl(1)] by blast
  have "map fst d' = map fst d @ filter (\<lambda>k. k \<notin> set (map fst d)) (l # ls)"
  proof (cases "l \<in> set (map fst d)")
    case True
    then show ?thesis using d'(2) by (simp add: dict_set_keys)
  next
    case False
    have "filter (\<lambda>k. k \<noteq> l \<and> k \<notin> set (map fst d)) ls = filter (\<lambda>k. k \<notin> set (map fst d)) ls"
      using dl(2) by (intro filter_cong) auto
    then show ?thesis using d'(2) False by (simp add: dict_set_keys)
  qed
  then show ?case using d'(1) by blast
qed

lemma fixed_increment_one_point:
  "fixed_increment dist_fn \<lparr>shape = (n, 2), rows = [[1, 0]]\<rparr> theta debug = [1, 1]"
  by (simp add: fixed_increment_def fixed_increment_run_def fi_loop.simps np_ones_def
      np_sum_def np_mul_def replicate_two)

lemma normalize_one_point:
  "normalize_features l one_point [l] = Inr \<lparr>shape = (1, 2), rows = [[1, 0]]\<rparr>"
  by (simp add: normalize_features_def one_point_def np_ones_def Let_def)

lemma train_one_point:
  "weights self = Some d \<Longrightarrow> rule self = FixedIncrement \<Longrightarrow>
     train dist_fn approx rand self g one_point [l]
       = (None, self\<lparr>weights := Some (dict_set d l [1, 1])\<rparr>, g)"
  by (simp add: train_def np_unique_def normalize_one_point rule_method_def
      fixed_increment_one_point)

lemma map_of_dict_set:
  "map_of (dict_set d k v) k' = (if k' = k then Some v else map_of d k')"
proof (induction d)
  case Nil
  then show ?case by simp
next
  case (Cons a d)
  obtain k0 v0 where a: "a = (k0, v0)" by (cases a)
  show ?case using a Cons.IH by auto
qed

lemma train_loop_values:
  assumes "train_loop dist_fn approx rand samples labels ls self g = (None, self', g')"
    and "weights self = Some d"
    and "distinct ls"
  shows "\<exists>d'. weights self' = Some d'
           \<and> (\<forall>k. k \<notin> set ls \<longrightarrow> map_of d' k = map_of d k)
           \<and> (\<forall>l\<in>set ls. \<exists>w. map_of d' l = Some w
                  \<and> trained_on dist_fn approx rand (rule self) samples labels l w)"
  using assms
proof (induction ls arbitrary: self g d)
  case Nil
  then show ?case by simp
next
  case (Cons l ls)
  obtain normalized where n: "normalize_features l samples labels = Inr normalized"
    using Cons.prems(1) by (auto split: sum.splits)
  obtain w g1 where m: "rule_method (rule self) dist_fn approx rand g normalized True = (Inr w, g1)"
    using Cons.prems(1) n by (auto split: sum.splits prod.splits)
  let ?self1 = "self\<lparr>weights := Some (dict_set d l w)\<rparr>"
  have step: "train_loop dist_fn approx rand samples labels ls ?self1 g1 = (None, self', g')"
    using Cons.prems(1,2) n m by simp
  have w1: "weights ?self1 = Some (dict_set d l w)" by simp
  have dl: "distinct ls" "l \<notin> set ls" using Cons.prems(3) by simp_all
  obtain d' where d': "weights self' = Some d'"
      "\<forall>k. k \<notin> set ls \<longrightarrow> map_of d' k = map_of (dict_set d l w) k"
      "\<forall>l'\<in>set ls. \<exists>w'. map_of d' l' = Some w'
          \<and> trained_on dist_fn approx rand (rule ?self1) samples labels l' w'"
    using Cons.IH [OF step w1 dl(1)] by blast
  have here: "trained_on dist_fn approx rand (rule self) samples labels l w"
    unfolding trained_on_def using n m by blast
  have kept: "\<forall>k. k \<notin> set (l # ls) \<longrightarrow> map_of d' k = map_of d k"
    using d'(2) by (simp add: map_of_dict_set)
  have lw: "map_of d' l = Some w"
    using d'(2) dl(2) by (simp add: map_of_dict_set)
  have new: "\<forall>l'\<in>set (l # ls). \<exists>w'. map_of d' l' = Some w'
          \<and> trained_on dist_fn approx rand (rule self) samples labels l' w'"
    using d'(3) lw here by auto
  show ?case using d'(1) kept new by blast
qed

text \<open>
  C9, as the code has it. \<open>train\<close> never clears the mapping. After a training call that
  completes, the mapping holds one weight vector for each distinct label of the
  training set, the one the rule returned for that label's normalised matrix, and it
  still holds, unchanged, every entry it held before under a label that is not in the
  training set. Its keys are the keys it had before the call, in their order, followed
  by the labels of the training set that were not yet keys, in sorted order; on a
  mapping that was empty before the call they are exactly the distinct labels of the
  training set.
\<close>

theorem train_keeps_previous_entries:
  assumes "train dist_fn approx rand self g samples labels = (None, self', g')"
    and "weights self = Some d"
  shows "\<exists>d'. weights self' = Some d'
           \<and> map fst d' = map fst d @ filter (\<lambda>l. l \<notin> set (map fst d)) (np_unique labels)
           \<and> set (map fst d') = set (map fst d) \<union> set labels
           \<and> (distinct (map fst d) \<longrightarrow> distinct (map fst d'))
           \<and> (d = [] \<longrightarrow> map fst d' = np_unique labels)
           \<and> (\<forall>k. k \<notin> set labels \<longrightarrow> map_of d' k = map_of d k)
           \<and> (\<forall>l\<in>set labels. \<exists>w. map_of d' l = Some w
                  \<and> trained_on dist_fn approx rand (rule self) samples labels l w)"
proof -
  have dis: "distinct (np_unique labels)" by (simp add: np_unique_def)
  have s: "set (np_unique labels) = set labels" by (simp add: np_unique_def)
  obtain d' where d': "weights self' = Some d'"
      "map fst d' = map fst d @ filter (\<lambda>l. l \<notin> set (map fst d)) (np_unique labels)"
    using train_loop_keys [OF assms(1) [unfolded train_def] assms(2) dis] by blast
  obtain d'' where d'': "weights self' = Some d''"
      "\<forall>k. k \<notin> set (np_unique labels) \<longrightarrow> map_of d'' k = map_of d k"
      "\<forall>l\<in>set (np_unique labels). \<exists>w. map_of d'' l = Some w
                  \<and> trained_on dist_fn approx rand (rule self) samples labels l w"
    using train_loop_values [OF assms(1) [unfolded train_def] assms(2) dis] by blast
  have eq: "d'' = d'" using d'(1) d''(1) by simp
  have "set (map fst d') = set (map fst d) \<union> set labels"
    using d'(2) s by auto
  moreover have "distinct (map fst d) \<longrightarrow> distinct (map fst d')"
    using d'(2) dis by auto
  moreover have "d = [] \<longrightarrow> map fst d' = np_unique labels"
    using d'(2) by simp
  moreover have "\<forall>k. k \<notin> set labels \<longrightarrow> map_of d' k = map_of d k"
    using d''(2) s eq by simp
  moreover have "\<forall>l\<in>set labels. \<exists>w. map_of d' l = Some w
                  \<and> trained_on dist_fn approx rand (rule self) samples labels l w"
    using d''(3) s eq by simp
  ultimately show ?thesis using d' by blast
qed

text \<open>A model that holds the entry of label 1 is trained on the label 2: the entry of
  label 1 is still there, with its vector.\<close>

theorem train_keeps_previous_entries_witness:
  "train euclid_dist approx_abs rand_half
        \<lparr>strategy = OneAgainstRest, rule = FixedIncrement, weights = Some [(1, [1, 1])]\<rparr> (0::nat)
        one_point [2]
     = (None, \<lparr>strategy = OneAgainstRest, rule = FixedIncrement,
               weights = Some [(1, [1, 1]), (2, [1, 1])]\<rparr>, 0)
   \<and> (\<exists>d'. weights \<lparr>strategy = OneAgainstRest, rule = FixedIncrement,
                     weights = Some [(1, [1, 1]), (2, [1, 1])]\<rparr> = Some d'
          \<and> map fst d' = [1, 2] \<and> distinct (map fst d')
          \<and> map_of d' 1 = Some [1, 1]
          \<and> (\<exists>w. map_of d' 2 = Some w
                 \<and> trained_on euclid_dist approx_abs rand_half FixedIncrement one_point [2] 2 w))"
proof -
  let ?self = "\<lparr>strategy = OneAgainstRest, rule = FixedIncrement, weights = Some [(1, [1, 1])]\<rparr>"
  let ?self' = "\<lparr>strategy = OneAgainstRest, rule = FixedIncrement,
               weights = Some [(1, [1, 1]), (2, [1, 1])]\<rparr>"
  have t: "train euclid_dist approx_abs rand_half ?self (0::nat) one_point [2] = (None, ?self', 0)"
    by (simp add: train_one_point)
  have w: "weights ?self = Some [(1, [1, 1])]" by simp
  obtain d' where d': "weights ?self' = Some d'"
      "map fst d' = map fst [(1::real, [1, 1::real])]
          @ filter (\<lambda>l. l \<notin> set (map fst [(1::real, [1, 1::real])])) (np_unique [2])"
      "distinct (map fst [(1::real, [1, 1::real])]) \<longrightarrow> distinct (map fst d')"
      "\<forall>k. k \<notin> set [2] \<longrightarrow> map_of d' k = map_of [(1::real, [1, 1::real])] k"
      "\<forall>l\<in>set [2]. \<exists>w. map_of d' l = Some w
          \<and> trained_on euclid_dist approx_abs rand_half (rule ?self) one_point [2] l w"
    using train_keeps_previous_entries [OF t w] by blast
  have f1: "map fst d' = [1, 2]" using d'(2) by (simp add: np_unique_def)
  have f2: "distinct (map fst d')" using d'(3) by simp
  have f3: "map_of d' 1 = Some [1, 1]" using d'(4) by simp
  have f4: "\<exists>w. map_of d' 2 = Some w
                 \<and> trained_on euclid_dist approx_abs rand_half FixedIncrement one_point [2] 2 w"
    using d'(5) by simp
  have "weights ?self' = Some d'
          \<and> map fst d' = [1, 2] \<and> distinct (map fst d')
          \<and> map_of d' 1 = Some [1, 1]
          \<and> (\<exists>w. map_of d' 2 = Some w
                 \<and> trained_on euclid_dist approx_abs rand_half FixedIncrement one_point [2] 2 w)"
    using d'(1) f1 f2 f3 f4 by - (intro conjI, assumption+)
  then have "\<exists>d'. weights ?self' = Some d'
          \<and> map fst d' = [1, 2] \<and> distinct (map fst d')
          \<and> map_of d' 1 = Some [1, 1]
          \<and> (\<exists>w. map_of d' 2 = Some w
                 \<and> trained_on euclid_dist approx_abs rand_half FixedIncrement one_point [2] 2 w)"
    by (rule exI [of _ d'])
  with t show ?thesis by (rule conjI)
qed

text \<open>
  C9, as stated, fails: training a fresh model on the label 1 and then on the label 2
  leaves the entry of label 1 in the mapping.
\<close>

theorem train_clears_mapping_counterexample:
  "train euclid_dist approx_abs rand_half (Perceptron_init FixedIncrement OneAgainstRest) (0::nat)
      one_point [1]
     = (None, \<lparr>strategy = OneAgainstRest, rule = FixedIncrement, weights = Some [(1, [1, 1])]\<rparr>, 0)
   \<and> train euclid_dist approx_abs rand_half
      \<lparr>strategy = OneAgainstRest, rule = FixedIncrement, weights = Some [(1, [1, 1])]\<rparr> (0::nat)
      one_point [2]
     = (None, \<lparr>strategy = OneAgainstRest, rule = FixedIncrement,
               weights = Some [(1, [1, 1]), (2, [1, 1])]\<rparr>, 0)
   \<and> (1::real) \<notin> set [2]"
  by (simp add: train_one_point Perceptron_init_def)

subsection \<open>The empty training matrix\<close>

text \<open>
  C10. On a sample matrix with no row and \<open>c\<close> columns, \<open>fixed_increment\<close> returns the
  all-ones vector of length \<open>c\<close>: the first pass finds no error and the loop stops with
  the initial weights.
\<close>

theorem fixed_increment_empty:
  "fixed_increment dist_fn \<lparr>shape = (0, c), rows = []\<rparr> theta debug = replicate c 1"
  by (simp add: fixed_increment_def fixed_increment_run_def np_ones_def fi_loop.simps)

end
